theory Spec2Isabelle
  imports Main
begin

section \<open>Data model of API.ts\<close>

text \<open>
  A thrown value. \<open>Error\<close> is JavaScript's \<open>new Error(message)\<close>; \<open>FetchError\<close> is the
  interface of API.ts that extends it with a status.
\<close>

datatype Error = Error (message: string) | FetchError (message: string) (error_status: int)

text \<open>A settled promise: \<open>Inl\<close> is a rejection (or a throw), \<open>Inr\<close> the resolved value.\<close>

type_synonym 'a Promise = "Error + 'a"

datatype Param = PString string | PBool bool | PNumber int

datatype Method = POST | PUT | DELETE | HEAD

datatype Body = BodyString string | FormData "(string \<times> string) list"

datatype Cache = No_store

record ApiRequestObject =
  url :: string
  params :: "(string \<times> Param) list option"
  http_method :: "Method option"
  headers :: "(string \<times> string) list option"
  body :: "Body option"
  cache :: "Cache option"

datatype ApiRequest = Object ApiRequestObject | Url string

text \<open>
  Of a fetch \<open>Response\<close> the dispatcher reads the status code and the body through
  \<open>response.text()\<close>, which is itself a promise and may reject.
\<close>

record Response =
  status :: int
  text_result :: "string Promise"

subsection \<open>The lock primitive\<close>

text \<open>
  Modelled from the spec: the module \<open>./asyncLock\<close> is imported by API.ts but is not part of
  the sources at hand. The spec describes a lock with state locked or unlocked and a queue
  of waiters: \<open>acquire()\<close> resolves once the lock is free and then marks it held;
  \<open>release()\<close> marks it free and wakes the next waiter, if any, and is a no-op when nobody
  holds it. \<open>acquire\<close> returns whether the promise resolves at once; otherwise the caller
  has joined the queue.
\<close>

record AsyncLock =
  held :: bool
  waiters :: nat

definition asyncLock :: AsyncLock where
  "asyncLock = \<lparr>held = False, waiters = 0\<rparr>"

definition acquire :: "AsyncLock \<Rightarrow> bool \<times> AsyncLock" where
  "acquire l =
     (if held l then (False, l\<lparr>waiters := waiters l + 1\<rparr>) else (True, l\<lparr>held := True\<rparr>))"

definition release :: "AsyncLock \<Rightarrow> AsyncLock" where
  "release l =
     (if 0 < waiters l then l\<lparr>waiters := waiters l - 1\<rparr> else l\<lparr>held := False\<rparr>)"

subsection \<open>The API handle and its environment\<close>

text \<open>
  The transport and the decorator are functions supplied by the caller; JavaScript lets
  them depend on hidden state. Both are indexed by the number of times they have been
  invoked before, so the \<open>n\<close>-th invocation may answer differently from the first.
  The transport settles to a rejection or to a response; the decorator returns a request
  and does not throw.
\<close>

type_synonym Transport = "nat \<Rightarrow> ApiRequest \<Rightarrow> Response Promise"

record API =
  rateLimiter :: "AsyncLock option"
  buildRequest :: "nat \<Rightarrow> ApiRequest \<Rightarrow> ApiRequest"
  requestFunction :: "Transport option"

text \<open>What the dispatcher does to the outside, in the order it does it.\<close>

datatype Event =
    Decorated ApiRequest ApiRequest
  | Dispatched ApiRequest
  | Console_log "string list"
  | Set_timeout nat
  | Timer_fired nat

text \<open>
  The environment of one call that has the handle to itself: the clock in milliseconds,
  the due times of the pending \<open>setTimeout\<close> callbacks (earliest first), the invocation
  counts of the transport and of the decorator, and the events so far. The clock advances
  only while the call waits for the lock: a call that starts with no callback pending has
  none pending while a request is in flight, since it waits for each one it schedules.
\<close>

record World =
  now :: nat
  timers :: "nat list"
  calls :: nat
  builds :: nat
  trace :: "Event list"

fun string_of_nat :: "nat \<Rightarrow> string" where
  "string_of_nat n =
     (if n < 10 then [char_of (n + 48)]
      else string_of_nat (n div 10) @ [char_of (n mod 10 + 48)])"

declare string_of_nat.simps [simp del]

section \<open>requestWithBackoff\<close>

text \<open>\<open>api.requestFunction || unsentRequest.performRequest\<close>; the default transport of
  \<open>./unsentRequest\<close> is a parameter.\<close>

definition transport_of :: "Transport \<Rightarrow> API \<Rightarrow> Transport" where
  "transport_of performRequest api =
     (case requestFunction api of Some f \<Rightarrow> f | None \<Rightarrow> performRequest)"

text \<open>The body of the \<open>try\<close> block: \<open>Inl\<close> is what it throws.\<close>

definition try_request ::
  "Transport \<Rightarrow> API \<Rightarrow> ApiRequest \<Rightarrow> World \<Rightarrow> Response Promise \<times> World" where
  "try_request performRequest api req w =
     (let builtRequest = buildRequest api (builds w) req;
          requestFunction = transport_of performRequest api;
          response = requestFunction (calls w) builtRequest;
          w' = w\<lparr>calls := calls w + 1, builds := builds w + 1,
                 trace := trace w @ [Decorated req builtRequest, Dispatched builtRequest]\<rparr>
      in case response of
           Inl err \<Rightarrow> (Inl err, w')
         | Inr response \<Rightarrow>
             if status response = 429
             then (Inl (Error (case text_result response of
                                 Inr t \<Rightarrow> t
                               | Inl _ \<Rightarrow> ''Too many requests'')), w')
             else (Inr response, w'))"

text \<open>
  The callback handed to \<open>setTimeout\<close>: \<open>api.rateLimiter?.release()\<close>, which hands the
  lock to the waiting caller, then \<open>api.rateLimiter = undefined\<close>, which drops the lock
  from the handle.
\<close>

definition cooldown_expired :: "API \<Rightarrow> World \<Rightarrow> API \<times> World" where
  "cooldown_expired api w =
     (let api1 = api\<lparr>rateLimiter := map_option release (rateLimiter api)\<rparr>
      in (api1\<lparr>rateLimiter := None\<rparr>,
          w\<lparr>trace := trace w @ [Console_log [''Done pausing requests'']]\<rparr>))"

text \<open>
  \<open>if (api.rateLimiter) await api.rateLimiter.acquire()\<close>. A caller that has to wait is
  resumed by the next timer callback, which releases the lock of the handle; with no
  timer pending nothing ever releases it and the call never returns (\<open>None\<close>).
\<close>

definition await_rateLimiter :: "API \<Rightarrow> World \<Rightarrow> (API \<times> World) option" where
  "await_rateLimiter api w =
     (case rateLimiter api of
        None \<Rightarrow> Some (api, w)
      | Some l \<Rightarrow>
          (case acquire l of
             (True, l') \<Rightarrow> Some (api\<lparr>rateLimiter := Some l'\<rparr>, w)
           | (False, l') \<Rightarrow>
               (case timers w of
                  [] \<Rightarrow> None
                | due # rest \<Rightarrow>
                    Some (cooldown_expired (api\<lparr>rateLimiter := Some l'\<rparr>)
                           (w\<lparr>now := max (now w) due, timers := rest,
                              trace := trace w @ [Timer_fired due]\<rparr>)))))"

text \<open>The branch \<open>if (!api.rateLimiter) { ... }\<close> of the \<open>catch\<close> block.\<close>

definition pause_requests :: "nat \<Rightarrow> Error \<Rightarrow> API \<Rightarrow> World \<Rightarrow> API \<times> World" where
  "pause_requests attempt err api w =
     (let timeout = attempt * attempt;
          w1 = w\<lparr>trace := trace w @
                 [Console_log [''Pausing requests for '' @ string_of_nat timeout @ '' '' @
                                 (if attempt = 1 then ''second'' else ''seconds'') @
                                 '' due to fetch failures:'', message err]]\<rparr>;
          lock = snd (acquire asyncLock)
      in (api\<lparr>rateLimiter := Some lock\<rparr>,
          w1\<lparr>timers := insort (now w1 + 1000 * timeout) (timers w1),
             trace := trace w1 @ [Set_timeout (1000 * timeout)]\<rparr>))"

function requestWithBackoff ::
  "Transport \<Rightarrow> API \<Rightarrow> ApiRequest \<Rightarrow> nat \<Rightarrow> World \<Rightarrow> (Response Promise \<times> API \<times> World) option" where
  "requestWithBackoff performRequest api req attempt w =
     (case await_rateLimiter api w of
        None \<Rightarrow> None
      | Some (api1, w1) \<Rightarrow>
          (case try_request performRequest api1 req w1 of
             (Inr response, w2) \<Rightarrow> Some (Inr response, api1, w2)
           | (Inl err, w2) \<Rightarrow>
               if attempt \<le> 5 then
                 (case (if rateLimiter api1 = None then pause_requests attempt err api1 w2
                        else (api1, w2)) of
                    (api3, w3) \<Rightarrow> requestWithBackoff performRequest api3 req (attempt + 1) w3)
               else Some (Inl err, api1, w2)))"
  by pat_completeness auto
termination
  by (relation "measure (\<lambda>(p, a, r, attempt, w). 6 - attempt)") auto

declare requestWithBackoff.simps [simp del]

subsection \<open>Reading the events\<close>

fun timeouts :: "Event list \<Rightarrow> nat list" where
  "timeouts [] = []"
| "timeouts (Set_timeout d # es) = d # timeouts es"
| "timeouts (_ # es) = timeouts es"

fun dispatched :: "Event list \<Rightarrow> ApiRequest list" where
  "dispatched [] = []"
| "dispatched (Dispatched r # es) = r # dispatched es"
| "dispatched (_ # es) = dispatched es"

fun decorated :: "Event list \<Rightarrow> (ApiRequest \<times> ApiRequest) list" where
  "decorated [] = []"
| "decorated (Decorated r b # es) = (r, b) # decorated es"
| "decorated (_ # es) = decorated es"

text \<open>What the \<open>try\<close> block yields on the \<open>i\<close>-th attempt counted from the world \<open>w\<close>.\<close>

definition attempt_outcome ::
  "Transport \<Rightarrow> API \<Rightarrow> ApiRequest \<Rightarrow> World \<Rightarrow> nat \<Rightarrow> Response Promise" where
  "attempt_outcome performRequest api req w i =
     fst (try_request performRequest api req (w\<lparr>calls := calls w + i, builds := builds w + i\<rparr>))"

section \<open>readFile and readFileMetadata\<close>

record FileMetadata =
  author :: string
  updatedOn :: string

text \<open>
  What the store may hold under a key. The type parameters of \<open>getItem\<close> are erased when
  the code runs, so one type covers the text, the blob and the metadata entries.
\<close>

datatype Item = Text string | Blob "nat list" | Metadata FileMetadata

text \<open>JavaScript truthiness of a stored value: of these only the empty string is falsy.\<close>

fun truthy :: "Item \<Rightarrow> bool" where
  "truthy (Text s) = (s \<noteq> [])"
| "truthy (Blob _) = True"
| "truthy (Metadata _) = True"

datatype StoreCall = GetItem string | SetItem string Item

text \<open>
  Modelled from the spec: the persistent key-value store (\<open>LocalForage\<close>) is an external
  collaborator with \<open>getItem(key)\<close> giving the value or absent and \<open>setItem(key, value)\<close>.
  Both are taken to succeed. The record also logs the calls made to the store and counts
  the invocations of the fetch callback, whose \<open>n\<close>-th invocation settles as \<open>fetch n\<close>.
\<close>

record Store =
  items :: "string \<rightharpoonup> Item"
  store_calls :: "StoreCall list"
  fetches :: nat

definition getItem :: "string \<Rightarrow> Store \<Rightarrow> Item option \<times> Store" where
  "getItem key st = (items st key, st\<lparr>store_calls := store_calls st @ [GetItem key]\<rparr>)"

definition setItem :: "string \<Rightarrow> Item \<Rightarrow> Store \<Rightarrow> Store" where
  "setItem key v st =
     st\<lparr>items := (items st)(key \<mapsto> v), store_calls := store_calls st @ [SetItem key v]\<rparr>"

text \<open>\<open>if (cached)\<close>: a missing entry is \<open>null\<close>, which is falsy as well.\<close>

definition if_truthy :: "Item option \<Rightarrow> Item option" where
  "if_truthy cached =
     (case cached of None \<Rightarrow> None | Some c \<Rightarrow> if truthy c then Some c else None)"

definition readFile ::
  "string option \<Rightarrow> (nat \<Rightarrow> Item Promise) \<Rightarrow> Store \<Rightarrow> bool \<Rightarrow> Item Promise \<times> Store" where
  "readFile id' fetchContent localForage isText =
     (let key = (case id' of
                   None \<Rightarrow> None
                 | Some i \<Rightarrow>
                     if i = [] then None
                     else Some (if isText then ''gh.'' @ i else ''gh.'' @ i @ ''.blob''));
          (cached, st1) = (case key of
                             Some k \<Rightarrow> getItem k localForage
                           | None \<Rightarrow> (None, localForage))
      in case if_truthy cached of
           Some c \<Rightarrow> (Inr c, st1)
         | None \<Rightarrow>
             (let st2 = st1\<lparr>fetches := fetches st1 + 1\<rparr>
              in case fetchContent (fetches st1) of
                   Inl err \<Rightarrow> (Inl err, st2)
                 | Inr content \<Rightarrow>
                     (Inr content, (case key of Some k \<Rightarrow> setItem k content st2 | None \<Rightarrow> st2))))"

definition getFileMetadataKey :: "string \<Rightarrow> string" where
  "getFileMetadataKey i = ''gh.'' @ i @ ''.meta''"

definition readFileMetadata ::
  "string \<Rightarrow> (nat \<Rightarrow> FileMetadata Promise) \<Rightarrow> Store \<Rightarrow> Item Promise \<times> Store" where
  "readFileMetadata i fetchMetadata localForage =
     (let key = getFileMetadataKey i;
          (cached, st1) = getItem key localForage
      in case if_truthy cached of
           Some c \<Rightarrow> (Inr c, st1)
         | None \<Rightarrow>
             (let st2 = st1\<lparr>fetches := fetches st1 + 1\<rparr>
              in case fetchMetadata (fetches st1) of
                   Inl err \<Rightarrow> (Inl err, st2)
                 | Inr metadata \<Rightarrow> (Inr (Metadata metadata), setItem key (Metadata metadata) st2)))"

subsection \<open>The cache rule in the words of the spec\<close>

text \<open>
  ``If the store holds a truthy value for that key, return it verbatim. Otherwise invoke
  the fetch function, store the result under the key, and return it.''
\<close>

definition cache_or_fetch_and_store ::
  "string \<Rightarrow> (nat \<Rightarrow> Item Promise) \<Rightarrow> Store \<Rightarrow> Item Promise \<times> Store" where
  "cache_or_fetch_and_store key fetch st =
     (case if_truthy (items st key) of
        Some v \<Rightarrow> (Inr v, st\<lparr>store_calls := store_calls st @ [GetItem key]\<rparr>)
      | None \<Rightarrow>
          (case fetch (fetches st) of
             Inl err \<Rightarrow>
               (Inl err, st\<lparr>store_calls := store_calls st @ [GetItem key],
                            fetches := fetches st + 1\<rparr>)
           | Inr v \<Rightarrow>
               (Inr v, st\<lparr>items := (items st)(key \<mapsto> v),
                          store_calls := store_calls st @ [GetItem key, SetItem key v],
                          fetches := fetches st + 1\<rparr>)))"

section \<open>Concrete inputs\<close>

definition idle_world :: World where
  "idle_world = \<lparr>now = 0, timers = [], calls = 0, builds = 0, trace = []\<rparr>"

definition ok_response :: Response where
  "ok_response = \<lparr>status = 200, text_result = Inr ''{}''\<rparr>"

definition server_error_response :: Response where
  "server_error_response = \<lparr>status = 500, text_result = Inr ''oops''\<rparr>"

definition throttled_response :: Response where
  "throttled_response = \<lparr>status = 429, text_result = Inr ''slow down''\<rparr>"

definition unreadable_throttled_response :: Response where
  "unreadable_throttled_response = \<lparr>status = 429, text_result = Inl (Error ''stream closed'')\<rparr>"

text \<open>A transport that raises on its first \<open>k\<close> invocations and answers 200 afterwards.\<close>

definition failing_first :: "nat \<Rightarrow> Transport" where
  "failing_first k i r =
     (if i < k then Inl (Error (''failure '' @ string_of_nat (i + 1))) else Inr ok_response)"

text \<open>A transport that answers 429 on its first \<open>k\<close> invocations and 200 afterwards.\<close>

definition throttling_first :: "nat \<Rightarrow> Transport" where
  "throttling_first k i r = Inr (if i < k then throttled_response else ok_response)"

definition answering :: "Response \<Rightarrow> Transport" where
  "answering response i r = Inr response"

text \<open>A decorator that stamps the request with a counter, as a cache-busting parameter would.\<close>

definition stamp :: "nat \<Rightarrow> ApiRequest \<Rightarrow> ApiRequest" where
  "stamp i r =
     (case r of
        Url u \<Rightarrow> Url (u @ ''?ts='' @ string_of_nat i)
      | Object ob \<Rightarrow>
          Object (ob\<lparr>params := Some ((''ts'', PNumber (int i)) #
                                     (case params ob of None \<Rightarrow> [] | Some ps \<Rightarrow> ps))\<rparr>))"

definition handle :: "Transport \<Rightarrow> API" where
  "handle t = \<lparr>rateLimiter = None, buildRequest = stamp, requestFunction = Some t\<rparr>"

definition empty_store :: Store where
  "empty_store = \<lparr>items = Map.empty, store_calls = [], fetches = 0\<rparr>"

definition store_holding :: "string \<Rightarrow> Item \<Rightarrow> Store" where
  "store_holding key v = \<lparr>items = [key \<mapsto> v], store_calls = [], fetches = 0\<rparr>"

definition fetching :: "Item \<Rightarrow> nat \<Rightarrow> Item Promise" where
  "fetching v n = Inr v"

definition some_metadata :: FileMetadata where
  "some_metadata = \<lparr>author = ''ada'', updatedOn = ''2020-01-01''\<rparr>"

section \<open>Auxiliary facts\<close>

lemma timeouts_append: "timeouts (xs @ ys) = timeouts xs @ timeouts ys"
  by (induction xs rule: timeouts.induct) simp_all

lemma dispatched_append: "dispatched (xs @ ys) = dispatched xs @ dispatched ys"
  by (induction xs rule: dispatched.induct) simp_all

lemma decorated_append: "decorated (xs @ ys) = decorated xs @ decorated ys"
  by (induction xs rule: decorated.induct) simp_all

lemma clear_rateLimiter: "rateLimiter api = None \<Longrightarrow> api\<lparr>rateLimiter := None\<rparr> = api"
  by (cases api) simp

lemma await_no_lock: "rateLimiter api = None \<Longrightarrow> await_rateLimiter api w = Some (api, w)"
  by (simp add: await_rateLimiter_def)

lemma try_request_fst: "fst (try_request pr api req w) = attempt_outcome pr api req w 0"
  by (simp add: attempt_outcome_def)

lemma try_request_snd:
  "snd (try_request pr api req w) =
     w\<lparr>calls := calls w + 1, builds := builds w + 1,
       trace := trace w @ [Decorated req (buildRequest api (builds w) req),
                           Dispatched (buildRequest api (builds w) req)]\<rparr>"
  by (simp add: try_request_def Let_def split: sum.split)

lemma attempt_outcome_eq:
  "attempt_outcome pr api req w i =
     (case transport_of pr api (calls w + i) (buildRequest api (builds w + i) req) of
        Inl err \<Rightarrow> Inl err
      | Inr response \<Rightarrow>
          if status response = 429
          then Inl (Error (case text_result response of Inr t \<Rightarrow> t | Inl _ \<Rightarrow> ''Too many requests''))
          else Inr response)"
  by (simp add: attempt_outcome_def try_request_def Let_def split: sum.split)

lemma attempt_outcome_shift:
  "calls w' = calls w + 1 \<Longrightarrow> builds w' = builds w + 1 \<Longrightarrow>
   attempt_outcome pr api req w' i = attempt_outcome pr api req w (Suc i)"
  by (simp add: attempt_outcome_eq)

lemma await_cooldown:
  assumes "rateLimiter api = None" and "timers w = []"
  shows "await_rateLimiter (fst (pause_requests a err api w)) (snd (pause_requests a err api w)) =
           Some (api, (snd (pause_requests a err api w))
                        \<lparr>now := now w + 1000 * (a * a), timers := [],
                          trace := trace (snd (pause_requests a err api w)) @
                            [Timer_fired (now w + 1000 * (a * a)), Console_log [''Done pausing requests'']]\<rparr>)"
  using assms
  by (simp add: pause_requests_def await_rateLimiter_def acquire_def asyncLock_def Let_def
                cooldown_expired_def clear_rateLimiter)

lemma requestWithBackoff_await:
  assumes "await_rateLimiter api w = Some (api1, w1)"
    and "await_rateLimiter api1 w1 = Some (api1, w1)"
  shows "requestWithBackoff pr api req n w = requestWithBackoff pr api1 req n w1"
  by (simp add: requestWithBackoff.simps [of pr api req n w]
                requestWithBackoff.simps [of pr api1 req n w1] assms)

lemma retry_step:
  assumes fresh: "rateLimiter api = None" "timers w = []"
    and fails: "attempt_outcome pr api req w 0 = Inl err"
    and le: "a \<le> 5"
  shows "\<exists>w'. requestWithBackoff pr api req a w = requestWithBackoff pr api req (a + 1) w'
           \<and> calls w' = calls w + 1 \<and> builds w' = builds w + 1 \<and> timers w' = []
           \<and> now w' = now w + 1000 * (a * a)
           \<and> timeouts (trace w') = timeouts (trace w) @ [1000 * (a * a)]
           \<and> dispatched (trace w') = dispatched (trace w) @ [buildRequest api (builds w) req]
           \<and> decorated (trace w') = decorated (trace w) @ [(req, buildRequest api (builds w) req)]"
proof -
  define w2 where "w2 = snd (try_request pr api req w)"
  define api3 where "api3 = fst (pause_requests a err api w2)"
  define w3 where "w3 = snd (pause_requests a err api w2)"
  define w4 where "w4 = w3\<lparr>now := now w2 + 1000 * (a * a), timers := [],
      trace := trace w3 @ [Timer_fired (now w2 + 1000 * (a * a)), Console_log [''Done pausing requests'']]\<rparr>"
  have tried: "try_request pr api req w = (Inl err, w2)"
    using fails by (simp add: w2_def prod_eq_iff try_request_fst)
  have w2: "timers w2 = []" "now w2 = now w" "calls w2 = calls w + 1" "builds w2 = builds w + 1"
    using fresh by (simp_all add: w2_def try_request_snd)
  have pause: "pause_requests a err api w2 = (api3, w3)"
    by (simp add: api3_def w3_def)
  have await3: "await_rateLimiter api3 w3 = Some (api, w4)"
    unfolding api3_def w3_def w4_def using fresh(1) w2(1) by (rule await_cooldown)
  have await4: "await_rateLimiter api w4 = Some (api, w4)"
    using fresh(1) by (rule await_no_lock)
  have "requestWithBackoff pr api req a w = requestWithBackoff pr api3 req (a + 1) w3"
    by (simp add: requestWithBackoff.simps [of pr api req a w] await_no_lock fresh tried pause le)
  also have "\<dots> = requestWithBackoff pr api req (a + 1) w4"
    using await3 await4 by (rule requestWithBackoff_await)
  finally have run: "requestWithBackoff pr api req a w = requestWithBackoff pr api req (a + 1) w4" .
  have tr3: "trace w3 = trace w2 @
      [Console_log [''Pausing requests for '' @ string_of_nat (a * a) @ '' '' @
                      (if a = 1 then ''second'' else ''seconds'') @ '' due to fetch failures:'', message err],
       Set_timeout (1000 * (a * a))]"
    by (simp add: w3_def pause_requests_def Let_def)
  have w3: "calls w3 = calls w2" "builds w3 = builds w2"
    by (simp_all add: w3_def pause_requests_def Let_def)
  have tr2: "trace w2 = trace w @ [Decorated req (buildRequest api (builds w) req),
                                   Dispatched (buildRequest api (builds w) req)]"
    by (simp add: w2_def try_request_snd)
  have "calls w4 = calls w + 1" "builds w4 = builds w + 1" "timers w4 = []"
       "now w4 = now w + 1000 * (a * a)"
    by (simp_all add: w4_def w3 w2)
  moreover have "timeouts (trace w4) = timeouts (trace w) @ [1000 * (a * a)]"
    by (simp add: w4_def tr3 tr2 timeouts_append)
  moreover have "dispatched (trace w4) = dispatched (trace w) @ [buildRequest api (builds w) req]"
    by (simp add: w4_def tr3 tr2 dispatched_append)
  moreover have "decorated (trace w4) = decorated (trace w) @ [(req, buildRequest api (builds w) req)]"
    by (simp add: w4_def tr3 tr2 decorated_append)
  ultimately show ?thesis using run by blast
qed


lemma terminal_attempt:
  assumes fresh: "rateLimiter api = None"
    and terminal: "5 < a \<or> \<not> isl (attempt_outcome pr api req w 0)"
  shows "requestWithBackoff pr api req a w =
           Some (attempt_outcome pr api req w 0, api, snd (try_request pr api req w))"
proof -
  define w2 where "w2 = snd (try_request pr api req w)"
  have tried: "try_request pr api req w = (attempt_outcome pr api req w 0, w2)"
    by (simp add: w2_def prod_eq_iff try_request_fst)
  have "requestWithBackoff pr api req a w = Some (attempt_outcome pr api req w 0, api, w2)"
  proof (cases "attempt_outcome pr api req w 0")
    case (Inl err)
    with terminal have "\<not> a \<le> 5" by simp
    with Inl tried show ?thesis
      by (simp add: requestWithBackoff.simps [of pr api req a w] await_no_lock fresh)
  next
    case (Inr response)
    with tried show ?thesis
      by (simp add: requestWithBackoff.simps [of pr api req a w] await_no_lock fresh)
  qed
  then show ?thesis by (simp add: w2_def)
qed

lemma run_attempts:
  assumes "rateLimiter api = None" and "timers w = []"
    and "\<forall>i<k. isl (attempt_outcome pr api req w i)"
    and "a + k \<le> 6"
    and "a + k = 6 \<or> \<not> isl (attempt_outcome pr api req w k)"
  shows "\<exists>w'. requestWithBackoff pr api req a w = Some (attempt_outcome pr api req w k, api, w')
           \<and> calls w' = calls w + k + 1 \<and> builds w' = builds w + k + 1 \<and> timers w' = []
           \<and> now w' = now w + (\<Sum>i<k. 1000 * ((a + i) * (a + i)))
           \<and> timeouts (trace w') = timeouts (trace w) @ map (\<lambda>i. 1000 * ((a + i) * (a + i))) [0..<k]
           \<and> dispatched (trace w') =
                 dispatched (trace w) @ map (\<lambda>i. buildRequest api (builds w + i) req) [0..<Suc k]
           \<and> decorated (trace w') =
                 decorated (trace w) @ map (\<lambda>i. (req, buildRequest api (builds w + i) req)) [0..<Suc k]"
  using assms
proof (induction k arbitrary: a w)
  case 0
  define w' where "w' = snd (try_request pr api req w)"
  have "requestWithBackoff pr api req a w = Some (attempt_outcome pr api req w 0, api, w')"
    unfolding w'_def using "0.prems"(1,4,5) by (intro terminal_attempt) auto
  moreover have "calls w' = calls w + 0 + 1" "builds w' = builds w + 0 + 1" "timers w' = []"
      "now w' = now w + (\<Sum>i<0. 1000 * ((a + i) * (a + i)))"
    using "0.prems"(2) by (simp_all add: w'_def try_request_snd)
  moreover have "timeouts (trace w') = timeouts (trace w) @ map (\<lambda>i. 1000 * ((a + i) * (a + i))) [0..<0]"
    by (simp add: w'_def try_request_snd timeouts_append)
  moreover have "dispatched (trace w') =
      dispatched (trace w) @ map (\<lambda>i. buildRequest api (builds w + i) req) [0..<Suc 0]"
    by (simp add: w'_def try_request_snd dispatched_append)
  moreover have "decorated (trace w') =
      decorated (trace w) @ map (\<lambda>i. (req, buildRequest api (builds w + i) req)) [0..<Suc 0]"
    by (simp add: w'_def try_request_snd decorated_append)
  ultimately show ?case by blast
next
  case (Suc k)
  from Suc.prems(3) have "isl (attempt_outcome pr api req w 0)" by simp
  then obtain err where err: "attempt_outcome pr api req w 0 = Inl err"
    by (auto simp: isl_def)
  from Suc.prems(4) have le: "a \<le> 5" by simp
  from retry_step [OF Suc.prems(1,2) err le]
  obtain w1 where step: "requestWithBackoff pr api req a w = requestWithBackoff pr api req (a + 1) w1"
    and w1: "calls w1 = calls w + 1" "builds w1 = builds w + 1" "timers w1 = []"
      "now w1 = now w + 1000 * (a * a)"
    and t1: "timeouts (trace w1) = timeouts (trace w) @ [1000 * (a * a)]"
    and d1: "dispatched (trace w1) = dispatched (trace w) @ [buildRequest api (builds w) req]"
    and c1: "decorated (trace w1) = decorated (trace w) @ [(req, buildRequest api (builds w) req)]"
    by blast
  have shift: "attempt_outcome pr api req w1 i = attempt_outcome pr api req w (Suc i)" for i
    using w1(1,2) by (rule attempt_outcome_shift)
  have fails: "\<forall>i<k. isl (attempt_outcome pr api req w1 i)"
    using Suc.prems(3) by (simp add: shift)
  have bound: "(a + 1) + k \<le> 6" using Suc.prems(4) by simp
  have terminal: "(a + 1) + k = 6 \<or> \<not> isl (attempt_outcome pr api req w1 k)"
    using Suc.prems(5) by (simp add: shift)
  from Suc.IH [OF Suc.prems(1) w1(3) fails bound terminal]
  obtain w' where res: "requestWithBackoff pr api req (a + 1) w1 = Some (attempt_outcome pr api req w1 k, api, w')"
    and w': "calls w' = calls w1 + k + 1" "builds w' = builds w1 + k + 1" "timers w' = []"
      "now w' = now w1 + (\<Sum>i<k. 1000 * ((a + 1 + i) * (a + 1 + i)))"
    and t': "timeouts (trace w') = timeouts (trace w1) @ map (\<lambda>i. 1000 * ((a + 1 + i) * (a + 1 + i))) [0..<k]"
    and d': "dispatched (trace w') =
               dispatched (trace w1) @ map (\<lambda>i. buildRequest api (builds w1 + i) req) [0..<Suc k]"
    and c': "decorated (trace w') =
               decorated (trace w1) @ map (\<lambda>i. (req, buildRequest api (builds w1 + i) req)) [0..<Suc k]"
    by blast
  have "requestWithBackoff pr api req a w = Some (attempt_outcome pr api req w (Suc k), api, w')"
    by (simp only: step res shift)
  moreover have "calls w' = calls w + Suc k + 1" "builds w' = builds w + Suc k + 1" "timers w' = []"
    by (simp_all add: w' w1)
  moreover have "now w' = now w + (\<Sum>i<Suc k. 1000 * ((a + i) * (a + i)))"
    by (simp add: w'(4) w1(4) sum.lessThan_Suc_shift del: sum.lessThan_Suc)
  moreover have "timeouts (trace w') =
      timeouts (trace w) @ map (\<lambda>i. 1000 * ((a + i) * (a + i))) [0..<Suc k]"
    by (simp add: t' t1 map_upt_Suc del: upt_Suc)
  moreover have "dispatched (trace w') =
      dispatched (trace w) @ map (\<lambda>i. buildRequest api (builds w + i) req) [0..<Suc (Suc k)]"
    by (simp add: d' d1 w1(2) map_upt_Suc [of _ "Suc k"] del: upt_Suc)
  moreover have "decorated (trace w') =
      decorated (trace w) @ map (\<lambda>i. (req, buildRequest api (builds w + i) req)) [0..<Suc (Suc k)]"
    by (simp add: c' c1 w1(2) map_upt_Suc [of _ "Suc k"] del: upt_Suc)
  ultimately show ?case by blast
qed

lemma sum_lessThan_sum_list: "(\<Sum>i<k. f i) = sum_list (map f [0..<k])" for f :: "nat \<Rightarrow> nat"
  by (simp add: interv_sum_list_conv_sum_set_nat lessThan_atLeast0)

lemma upt_five: "[0..<5] = [0, 1, 2, 3, 4::nat]"
  by (simp add: upt_rec)

lemma first_five_delays:
  "map (\<lambda>i. 1000 * ((1 + i) * (1 + i))) [0..<5] = [1000, 4000, 9000, 16000, 25000 :: nat]"
  by (simp add: upt_five)


lemma handle_fresh: "rateLimiter (handle t) = None"
  by (simp add: handle_def)

lemma idle_world_timers: "timers idle_world = []"
  by (simp add: idle_world_def)

lemma readFile_present_id:
  assumes "i \<noteq> []"
  shows "readFile (Some i) fetchContent st isText =
           cache_or_fetch_and_store (if isText then ''gh.'' @ i else ''gh.'' @ i @ ''.blob'')
             fetchContent st"
  using assms
  by (simp add: readFile_def cache_or_fetch_and_store_def getItem_def setItem_def Let_def
           split: option.split sum.split)

lemma readFileMetadata_rule:
  "readFileMetadata i fetchMetadata st =
     cache_or_fetch_and_store (''gh.'' @ i @ ''.meta'') (\<lambda>n. map_sum id Metadata (fetchMetadata n)) st"
  by (simp add: readFileMetadata_def getFileMetadataKey_def cache_or_fetch_and_store_def
                getItem_def setItem_def Let_def
           split: option.split sum.split)

lemma try_request_not_429:
  "try_request pr api req w = (Inr r, w2) \<Longrightarrow> status r \<noteq> 429"
  by (auto simp: try_request_def Let_def split: sum.splits if_splits)

lemma never_resolves_with_429:
  "requestWithBackoff pr api req a w = Some (Inr r, a', w') \<Longrightarrow> status r \<noteq> 429"
proof (induction pr api req a w rule: requestWithBackoff.induct)
  case (1 pr api req attempt w)
  from "1.prems" obtain api1 w1 where aw: "await_rateLimiter api w = Some (api1, w1)"
    by (subst (asm) requestWithBackoff.simps) (auto split: option.splits)
  obtain out w2 where tr: "try_request pr api1 req w1 = (out, w2)"
    by fastforce
  show ?case
  proof (cases out)
    case (Inr resp)
    with "1.prems" aw tr have "r = resp"
      by (subst (asm) requestWithBackoff.simps) simp
    with tr Inr show ?thesis by (auto dest: try_request_not_429)
  next
    case (Inl err)
    obtain api3 w3 where p: "(if rateLimiter api1 = None then pause_requests attempt err api1 w2
                               else (api1, w2)) = (api3, w3)"
      by fastforce
    from "1.prems" aw tr Inl p have le: "attempt \<le> 5"
      and rec: "requestWithBackoff pr api3 req (attempt + 1) w3 = Some (Inr r, a', w')"
      by (subst (asm) requestWithBackoff.simps, simp split: if_splits)+
    show ?thesis
    proof (rule "1.IH" [OF aw refl _ _ le _ rec])
      show "(out, w2) = try_request pr api1 req w1" by (simp add: tr)
      show "out = Inl err" by (rule Inl)
      show "(api3, w3) = (if rateLimiter api1 = None then pause_requests attempt err api1 w2
                          else (api1, w2))" by (simp add: p)
    qed
  qed
qed

lemma fresh_call_returns:
  assumes "rateLimiter api = None" and "timers w = []"
  shows "\<exists>r w' ds. requestWithBackoff pr api req a w = Some (r, api, w')
           \<and> calls w < calls w' \<and> now w \<le> now w' \<and> timers w' = []
           \<and> timeouts (trace w') = timeouts (trace w) @ ds"
  using assms
proof (induction "6 - a" arbitrary: a w)
  case 0
  then have "5 < a" by simp
  then have "requestWithBackoff pr api req a w =
      Some (attempt_outcome pr api req w 0, api, snd (try_request pr api req w))"
    using "0.prems"(1) by (intro terminal_attempt) simp_all
  then show ?case
    using "0.prems"(2) by (simp add: try_request_snd timeouts_append)
next
  case (Suc m)
  show ?case
  proof (cases "attempt_outcome pr api req w 0")
    case (Inr response)
    then have "requestWithBackoff pr api req a w =
        Some (attempt_outcome pr api req w 0, api, snd (try_request pr api req w))"
      using Suc.prems(1) by (intro terminal_attempt) simp_all
    then show ?thesis
      using Suc.prems(2) by (simp add: try_request_snd timeouts_append)
  next
    case (Inl err)
    from Suc.hyps(2) have le: "a \<le> 5" by simp
    from retry_step [OF Suc.prems Inl le]
    obtain w1 where step: "requestWithBackoff pr api req a w = requestWithBackoff pr api req (a + 1) w1"
      and w1: "calls w1 = calls w + 1" "timers w1 = []" "now w1 = now w + 1000 * (a * a)"
      and t1: "timeouts (trace w1) = timeouts (trace w) @ [1000 * (a * a)]"
      by blast
    from Suc.hyps(2) have m: "m = 6 - (a + 1)" by simp
    from Suc.hyps(1) [OF m Suc.prems(1) w1(2)]
    obtain r w' ds where res: "requestWithBackoff pr api req (a + 1) w1 = Some (r, api, w')"
      and w': "calls w1 < calls w'" "now w1 \<le> now w'" "timers w' = []"
      and t': "timeouts (trace w') = timeouts (trace w1) @ ds"
      by blast
    have "requestWithBackoff pr api req a w = Some (r, api, w')"
      by (simp only: step res)
    moreover have "calls w < calls w'" "now w \<le> now w'"
      using w' w1 by simp_all
    moreover have "timeouts (trace w') = timeouts (trace w) @ (1000 * (a * a) # ds)"
      by (simp add: t' t1)
    ultimately show ?thesis using w'(3) by blast
  qed
qed

lemma failed_attempt_retries:
  assumes "rateLimiter api = None" and "timers w = []"
    and "attempt_outcome pr api req w 0 = Inl err"
    and "a \<le> 5"
  shows "\<exists>r w' ds. requestWithBackoff pr api req a w = Some (r, api, w')
           \<and> calls w + 2 \<le> calls w'
           \<and> now w + 1000 * (a * a) \<le> now w'
           \<and> timers w' = []
           \<and> timeouts (trace w') = timeouts (trace w) @ 1000 * (a * a) # ds"
proof -
  from retry_step [OF assms]
  obtain w1 where step: "requestWithBackoff pr api req a w = requestWithBackoff pr api req (a + 1) w1"
    and w1: "calls w1 = calls w + 1" "timers w1 = []" "now w1 = now w + 1000 * (a * a)"
    and t1: "timeouts (trace w1) = timeouts (trace w) @ [1000 * (a * a)]"
    by blast
  from fresh_call_returns [OF assms(1) w1(2)]
  obtain r w' ds where res: "requestWithBackoff pr api req (a + 1) w1 = Some (r, api, w')"
    and w': "calls w1 < calls w'" "now w1 \<le> now w'" "timers w' = []"
    and t': "timeouts (trace w') = timeouts (trace w1) @ ds"
    by blast
  have "requestWithBackoff pr api req a w = Some (r, api, w')"
    by (simp only: step res)
  moreover have "calls w + 2 \<le> calls w'" "now w + 1000 * (a * a) \<le> now w'"
    using w' w1 by simp_all
  moreover have "timeouts (trace w') = timeouts (trace w) @ 1000 * (a * a) # ds"
    by (simp add: t' t1)
  ultimately show ?thesis using w'(3) by blast
qed

section \<open>The claims\<close>

subsection \<open>C1: retries until the transport succeeds\<close>

text \<open>
  C1, as amended. On a handle with no cooldown active, when the first \<open>k \<le> 4\<close> attempts
  fail and the next one succeeds, \<open>requestWithBackoff(api, req)\<close> resolves with the
  successful response after \<open>k + 1\<close> attempts. It installs one cooldown timer per failure,
  \<open>k\<close> in all, of \<open>1000 \<cdot> n\<^sup>2\<close> milliseconds after the failure of attempt \<open>n\<close>; they run one
  after another (the clock advances by their sum), and none is pending at the end.
\<close>

theorem requestWithBackoff_succeeds_after_failures:
  assumes "rateLimiter api = None" and "timers w = []"
    and "k \<le> 4"
    and "\<forall>i<k. isl (attempt_outcome pr api req w i)"
    and "attempt_outcome pr api req w k = Inr response"
  shows "\<exists>w'. requestWithBackoff pr api req 1 w = Some (Inr response, api, w')
           \<and> calls w' = calls w + (k + 1)
           \<and> timeouts (trace w') = timeouts (trace w) @ map (\<lambda>i. 1000 * ((i + 1) * (i + 1))) [0..<k]
           \<and> length (timeouts (trace w')) = length (timeouts (trace w)) + k
           \<and> now w' = now w + sum_list (map (\<lambda>i. 1000 * ((i + 1) * (i + 1))) [0..<k])
           \<and> timers w' = []"
proof -
  have bound: "1 + k \<le> 6" using assms(3) by simp
  have terminal: "1 + k = 6 \<or> \<not> isl (attempt_outcome pr api req w k)"
    by (simp add: assms(5))
  from run_attempts [OF assms(1,2,4) bound terminal]
  obtain w' where res: "requestWithBackoff pr api req 1 w = Some (attempt_outcome pr api req w k, api, w')"
    and w': "calls w' = calls w + k + 1" "timers w' = []"
      "now w' = now w + (\<Sum>i<k. 1000 * ((1 + i) * (1 + i)))"
    and t': "timeouts (trace w') = timeouts (trace w) @ map (\<lambda>i. 1000 * ((1 + i) * (1 + i))) [0..<k]"
    by blast
  have "requestWithBackoff pr api req 1 w = Some (Inr response, api, w')"
    by (simp only: res assms(5))
  moreover have "calls w' = calls w + (k + 1)" by (simp add: w')
  moreover have t: "timeouts (trace w') =
      timeouts (trace w) @ map (\<lambda>i. 1000 * ((i + 1) * (i + 1))) [0..<k]"
    by (simp add: t')
  moreover have "length (timeouts (trace w')) = length (timeouts (trace w)) + k"
    by (simp add: t)
  moreover have "now w' = now w + sum_list (map (\<lambda>i. 1000 * ((i + 1) * (i + 1))) [0..<k])"
    by (simp add: w'(3) sum_lessThan_sum_list)
  ultimately show ?thesis using w'(2) by blast
qed

text \<open>
  The theorem at a transport that raises twice and then answers 200.
\<close>

theorem requestWithBackoff_succeeds_after_failures_witness:
  "\<exists>w'. requestWithBackoff (answering ok_response) (handle (failing_first 2)) (Url ''repos/a'') 1 idle_world
           = Some (Inr ok_response, handle (failing_first 2), w')
        \<and> calls w' = 3 \<and> timeouts (trace w') = [1000, 4000] \<and> now w' = 5000 \<and> timers w' = []"
proof -
  have fails: "\<forall>i<2. isl (attempt_outcome (answering ok_response) (handle (failing_first 2))
                          (Url ''repos/a'') idle_world i)"
    by (simp add: attempt_outcome_eq transport_of_def handle_def failing_first_def idle_world_def)
  have ok: "attempt_outcome (answering ok_response) (handle (failing_first 2))
              (Url ''repos/a'') idle_world 2 = Inr ok_response"
    by (simp add: attempt_outcome_eq transport_of_def handle_def failing_first_def idle_world_def
                  ok_response_def)
  have k: "(2::nat) \<le> 4" by simp
  from requestWithBackoff_succeeds_after_failures [OF handle_fresh idle_world_timers k fails ok]
  show ?thesis
    by (auto simp: idle_world_def numeral_2_eq_2 numeral_3_eq_3)
qed

text \<open>
  C1 as stated asks for exactly one cooldown over the whole sequence. With two sequential
  failures followed by a success the call makes three attempts and installs two timers,
  the second after the first has expired.
\<close>

theorem two_failures_install_two_cooldowns:
  "isl (failing_first 2 0 (stamp 0 (Url ''repos/a'')))
   \<and> isl (failing_first 2 1 (stamp 1 (Url ''repos/a'')))
   \<and> failing_first 2 2 (stamp 2 (Url ''repos/a'')) = Inr ok_response
   \<and> map_option (\<lambda>(r, a, w). (r, calls w, timeouts (trace w), length (timeouts (trace w)), now w))
        (requestWithBackoff (answering ok_response) (handle (failing_first 2)) (Url ''repos/a'') 1
           idle_world)
       = Some (Inr ok_response, 3, [1000, 4000], 2, 5000)"
  by code_simp

subsection \<open>C2: giving up after the sixth failure\<close>

text \<open>
  C2. When six consecutive attempts fail, \<open>requestWithBackoff\<close> raises the error of the sixth
  failure (the very error the transport raised, when it raised one), calls the transport
  six times and no more, and installs the five timers of attempts 1 to 5 only.
\<close>

theorem requestWithBackoff_raises_sixth_failure:
  assumes "rateLimiter api = None" and "timers w = []"
    and "\<forall>i<6. isl (attempt_outcome pr api req w i)"
  shows "\<exists>err w'. attempt_outcome pr api req w 5 = Inl err
           \<and> requestWithBackoff pr api req 1 w = Some (Inl err, api, w')
           \<and> calls w' = calls w + 6
           \<and> timeouts (trace w') = timeouts (trace w) @ [1000, 4000, 9000, 16000, 25000]
           \<and> timers w' = []
           \<and> (case transport_of pr api (calls w + 5) (buildRequest api (builds w + 5) req) of
                 Inl e \<Rightarrow> err = e
               | Inr response \<Rightarrow> status response = 429)"
proof -
  from assms(3) have "isl (attempt_outcome pr api req w 5)" by simp
  then obtain err where err: "attempt_outcome pr api req w 5 = Inl err"
    by (auto simp: isl_def)
  have fails: "\<forall>i<5. isl (attempt_outcome pr api req w i)"
    using assms(3) by simp
  have bound: "1 + 5 \<le> (6::nat)" by simp
  have terminal: "1 + 5 = (6::nat) \<or> \<not> isl (attempt_outcome pr api req w 5)" by simp
  from run_attempts [OF assms(1,2) fails bound terminal]
  obtain w' where res: "requestWithBackoff pr api req 1 w = Some (attempt_outcome pr api req w 5, api, w')"
    and w': "calls w' = calls w + 5 + 1" "timers w' = []"
    and t': "timeouts (trace w') = timeouts (trace w) @ map (\<lambda>i. 1000 * ((1 + i) * (1 + i))) [0..<5]"
    by blast
  have "requestWithBackoff pr api req 1 w = Some (Inl err, api, w')"
    by (simp only: res err)
  moreover have "calls w' = calls w + 6" by (simp add: w'(1))
  moreover have "timeouts (trace w') = timeouts (trace w) @ [1000, 4000, 9000, 16000, 25000]"
    by (simp only: t' first_five_delays)
  moreover have "case transport_of pr api (calls w + 5) (buildRequest api (builds w + 5) req) of
                   Inl e \<Rightarrow> err = e
                 | Inr response \<Rightarrow> status response = 429"
    using err by (simp add: attempt_outcome_eq split: sum.splits if_splits)
  ultimately show ?thesis using err w'(2) by blast
qed

text \<open>
  The theorem at a transport that always raises, numbering its errors.
\<close>

theorem requestWithBackoff_raises_sixth_failure_witness:
  "\<exists>w'. requestWithBackoff (answering ok_response) (handle (failing_first 6)) (Url ''repos/a'') 1 idle_world
           = Some (Inl (Error ''failure 6''), handle (failing_first 6), w')
        \<and> calls w' = 6 \<and> timeouts (trace w') = [1000, 4000, 9000, 16000, 25000] \<and> timers w' = []"
proof -
  have fails: "\<forall>i<6. isl (attempt_outcome (answering ok_response) (handle (failing_first 6))
                          (Url ''repos/a'') idle_world i)"
    by (simp add: attempt_outcome_eq transport_of_def handle_def failing_first_def idle_world_def)
  have sixth: "attempt_outcome (answering ok_response) (handle (failing_first 6))
                 (Url ''repos/a'') idle_world 5 = Inl (Error ''failure 6'')"
    by code_simp
  from requestWithBackoff_raises_sixth_failure [OF handle_fresh idle_world_timers fails]
  obtain err w' where e: "attempt_outcome (answering ok_response) (handle (failing_first 6))
                         (Url ''repos/a'') idle_world 5 = Inl err"
    and r: "requestWithBackoff (answering ok_response) (handle (failing_first 6)) (Url ''repos/a'') 1 idle_world
           = Some (Inl err, handle (failing_first 6), w')"
    and c: "calls w' = calls idle_world + 6"
    and t: "timeouts (trace w') = timeouts (trace idle_world) @ [1000, 4000, 9000, 16000, 25000]"
    and p: "timers w' = []"
    by blast
  from e sixth have "err = Error ''failure 6''" by simp
  with r c t p show ?thesis
    by (auto simp: idle_world_def)
qed

subsection \<open>C3: only status 429 is throttling\<close>

text \<open>
  C3. Once the lock has been passed, if the transport returns a response without raising,
  the \<open>try\<close> block throws exactly when the status is 429. A response with any other
  status is returned to the caller unchanged, whatever the attempt number. On a 429 the
  call takes the error path: up to attempt 5 it pauses requests (when the handle has no
  lock) and tries again, so that on a handle with nothing pending the transport is called
  again after a cooldown of \<open>attempt\<^sup>2\<close> seconds; after attempt 5 it raises the error. No
  call ever resolves with a response of status 429.
\<close>

theorem only_status_429_is_throttling:
  assumes "await_rateLimiter api w = Some (api1, w1)"
    and "transport_of pr api1 (calls w1) (buildRequest api1 (builds w1) req) = Inr response"
  shows "(isl (fst (try_request pr api1 req w1)) \<longleftrightarrow> status response = 429)
       \<and> (status response \<noteq> 429 \<longrightarrow>
            requestWithBackoff pr api req attempt w =
              Some (Inr response, api1, snd (try_request pr api1 req w1)))
       \<and> (status response = 429 \<longrightarrow>
            requestWithBackoff pr api req attempt w =
              (let err = Error (case text_result response of
                                  Inr t \<Rightarrow> t
                                | Inl _ \<Rightarrow> ''Too many requests'');
                   w2 = snd (try_request pr api1 req w1)
               in if attempt \<le> 5
                  then (case (if rateLimiter api1 = None then pause_requests attempt err api1 w2
                              else (api1, w2)) of
                          (api3, w3) \<Rightarrow> requestWithBackoff pr api3 req (attempt + 1) w3)
                  else Some (Inl err, api1, w2)))
       \<and> (status response = 429 \<and> attempt \<le> 5 \<and> rateLimiter api1 = None \<and> timers w1 = [] \<longrightarrow>
            (\<exists>r w' ds. requestWithBackoff pr api req attempt w = Some (r, api1, w')
               \<and> calls w1 + 2 \<le> calls w'
               \<and> now w1 + 1000 * (attempt * attempt) \<le> now w'
               \<and> timeouts (trace w') = timeouts (trace w1) @ 1000 * (attempt * attempt) # ds))
       \<and> (\<forall>r a' w'. requestWithBackoff pr api req attempt w = Some (Inr r, a', w') \<longrightarrow>
              status r \<noteq> 429)"
proof -
  define w2 where "w2 = snd (try_request pr api1 req w1)"
  define err where "err = Error (case text_result response of
                                   Inr t \<Rightarrow> t
                                 | Inl _ \<Rightarrow> ''Too many requests'')"
  have outcome: "fst (try_request pr api1 req w1) =
      (if status response = 429 then Inl err else Inr response)"
    using assms(2) by (simp add: try_request_fst attempt_outcome_eq err_def)
  have c1: "isl (fst (try_request pr api1 req w1)) \<longleftrightarrow> status response = 429"
    using outcome by simp
  have c2: "status response \<noteq> 429 \<longrightarrow>
      requestWithBackoff pr api req attempt w = Some (Inr response, api1, w2)"
  proof
    assume "status response \<noteq> 429"
    then have "try_request pr api1 req w1 = (Inr response, w2)"
      using outcome by (simp add: w2_def prod_eq_iff)
    then show "requestWithBackoff pr api req attempt w = Some (Inr response, api1, w2)"
      by (simp add: requestWithBackoff.simps [of pr api req attempt w] assms(1))
  qed
  have c3: "status response = 429 \<longrightarrow>
      requestWithBackoff pr api req attempt w =
      (if attempt \<le> 5
       then (case (if rateLimiter api1 = None then pause_requests attempt err api1 w2
                   else (api1, w2)) of
               (api3, w3) \<Rightarrow> requestWithBackoff pr api3 req (attempt + 1) w3)
       else Some (Inl err, api1, w2))"
  proof
    assume "status response = 429"
    then have "try_request pr api1 req w1 = (Inl err, w2)"
      using outcome by (simp add: w2_def prod_eq_iff)
    then show "requestWithBackoff pr api req attempt w =
      (if attempt \<le> 5
       then (case (if rateLimiter api1 = None then pause_requests attempt err api1 w2
                   else (api1, w2)) of
               (api3, w3) \<Rightarrow> requestWithBackoff pr api3 req (attempt + 1) w3)
       else Some (Inl err, api1, w2))"
      by (simp add: requestWithBackoff.simps [of pr api req attempt w] assms(1))
  qed
  have c4: "status response = 429 \<and> attempt \<le> 5 \<and> rateLimiter api1 = None \<and> timers w1 = [] \<longrightarrow>
            (\<exists>r w' ds. requestWithBackoff pr api req attempt w = Some (r, api1, w')
               \<and> calls w1 + 2 \<le> calls w'
               \<and> now w1 + 1000 * (attempt * attempt) \<le> now w'
               \<and> timeouts (trace w') = timeouts (trace w1) @ 1000 * (attempt * attempt) # ds)"
  proof
    assume a: "status response = 429 \<and> attempt \<le> 5 \<and> rateLimiter api1 = None \<and> timers w1 = []"
    then have fails: "attempt_outcome pr api1 req w1 0 = Inl err"
      using outcome by (simp add: try_request_fst)
    from a have fresh: "rateLimiter api1 = None" "timers w1 = []" and le: "attempt \<le> 5"
      by simp_all
    have same: "requestWithBackoff pr api req attempt w = requestWithBackoff pr api1 req attempt w1"
      using assms(1) await_no_lock [OF fresh(1)] by (rule requestWithBackoff_await)
    from failed_attempt_retries [OF fresh fails le]
    obtain r w' ds where "requestWithBackoff pr api1 req attempt w1 = Some (r, api1, w')"
      and "calls w1 + 2 \<le> calls w'"
      and "now w1 + 1000 * (attempt * attempt) \<le> now w'"
      and "timeouts (trace w') = timeouts (trace w1) @ 1000 * (attempt * attempt) # ds"
      by blast
    then show "\<exists>r w' ds. requestWithBackoff pr api req attempt w = Some (r, api1, w')
               \<and> calls w1 + 2 \<le> calls w'
               \<and> now w1 + 1000 * (attempt * attempt) \<le> now w'
               \<and> timeouts (trace w') = timeouts (trace w1) @ 1000 * (attempt * attempt) # ds"
      unfolding same by blast
  qed
  have c5: "\<forall>r a' w'. requestWithBackoff pr api req attempt w = Some (Inr r, a', w') \<longrightarrow>
              status r \<noteq> 429"
    by (intro allI impI) (rule never_resolves_with_429)
  from c1 c2 c3 c4 c5 show ?thesis
    unfolding Let_def err_def [symmetric] w2_def [symmetric]
    by (intro conjI)
qed

text \<open>
  The theorem at a response with status 500, which passes through; at one with status
  429 on attempt 6, which is raised as an error; and at a transport that answers 429 once
  and then 200, where attempt 1 is retried after one second.
\<close>

theorem only_status_429_is_throttling_witness:
  "requestWithBackoff (answering ok_response) (handle (answering server_error_response))
      (Url ''repos/a'') 1 idle_world
     = Some (Inr server_error_response, handle (answering server_error_response),
             snd (try_request (answering ok_response) (handle (answering server_error_response))
                    (Url ''repos/a'') idle_world))
   \<and> \<not> isl (fst (try_request (answering ok_response) (handle (answering server_error_response))
                    (Url ''repos/a'') idle_world))
   \<and> isl (fst (try_request (answering ok_response) (handle (answering throttled_response))
                  (Url ''repos/a'') idle_world))
   \<and> requestWithBackoff (answering ok_response) (handle (answering throttled_response))
        (Url ''repos/a'') 6 idle_world
       = Some (Inl (Error ''slow down''), handle (answering throttled_response),
               snd (try_request (answering ok_response) (handle (answering throttled_response))
                      (Url ''repos/a'') idle_world))
   \<and> (\<exists>r w' ds. requestWithBackoff (answering ok_response) (handle (throttling_first 1))
                     (Url ''repos/a'') 1 idle_world = Some (r, handle (throttling_first 1), w')
          \<and> 2 \<le> calls w' \<and> 1000 \<le> now w' \<and> timeouts (trace w') = 1000 # ds)
   \<and> map_option (\<lambda>(r, a, w). (r, calls w, timeouts (trace w), now w))
        (requestWithBackoff (answering ok_response) (handle (throttling_first 1))
           (Url ''repos/a'') 1 idle_world)
       = Some (Inr ok_response, 2, [1000], 1000)"
proof -
  have a: "await_rateLimiter (handle t) idle_world = Some (handle t, idle_world)" for t
    by (simp add: await_no_lock handle_fresh)
  have s: "transport_of (answering ok_response) (handle (answering r)) (calls idle_world)
             (buildRequest (handle (answering r)) (builds idle_world) (Url ''repos/a'')) = Inr r" for r
    by (simp add: transport_of_def handle_def answering_def)
  have s1: "transport_of (answering ok_response) (handle (throttling_first 1)) (calls idle_world)
             (buildRequest (handle (throttling_first 1)) (builds idle_world) (Url ''repos/a''))
              = Inr throttled_response"
    by (simp add: transport_of_def handle_def throttling_first_def idle_world_def)
  have passes: "requestWithBackoff (answering ok_response) (handle (answering server_error_response))
      (Url ''repos/a'') 1 idle_world
     = Some (Inr server_error_response, handle (answering server_error_response),
             snd (try_request (answering ok_response) (handle (answering server_error_response))
                    (Url ''repos/a'') idle_world))
   \<and> \<not> isl (fst (try_request (answering ok_response) (handle (answering server_error_response))
                    (Url ''repos/a'') idle_world))"
    using only_status_429_is_throttling [OF a s, of server_error_response 1]
    by (simp add: server_error_response_def)
  have raises: "isl (fst (try_request (answering ok_response) (handle (answering throttled_response))
                  (Url ''repos/a'') idle_world))
   \<and> requestWithBackoff (answering ok_response) (handle (answering throttled_response))
        (Url ''repos/a'') 6 idle_world
       = Some (Inl (Error ''slow down''), handle (answering throttled_response),
               snd (try_request (answering ok_response) (handle (answering throttled_response))
                      (Url ''repos/a'') idle_world))"
    using only_status_429_is_throttling [OF a s, of throttled_response 6]
    by (simp add: throttled_response_def)
  have retries: "\<exists>r w' ds. requestWithBackoff (answering ok_response) (handle (throttling_first 1))
                     (Url ''repos/a'') 1 idle_world = Some (r, handle (throttling_first 1), w')
          \<and> 2 \<le> calls w' \<and> 1000 \<le> now w' \<and> timeouts (trace w') = 1000 # ds"
  proof -
    have pre: "status throttled_response = 429 \<and> (1::nat) \<le> 5
        \<and> rateLimiter (handle (throttling_first 1)) = None \<and> timers idle_world = []"
      by (simp add: throttled_response_def handle_fresh idle_world_timers)
    from only_status_429_is_throttling [OF a s1, of 1, THEN conjunct2, THEN conjunct2,
           THEN conjunct2, THEN conjunct1, THEN mp, OF pre]
    obtain r w' ds where "requestWithBackoff (answering ok_response) (handle (throttling_first 1))
                     (Url ''repos/a'') 1 idle_world = Some (r, handle (throttling_first 1), w')"
      and "calls idle_world + 2 \<le> calls w'"
      and "now idle_world + 1000 * (1 * 1) \<le> now w'"
      and "timeouts (trace w') = timeouts (trace idle_world) @ 1000 * (1 * 1) # ds"
      by blast
    then have "requestWithBackoff (answering ok_response) (handle (throttling_first 1))
                     (Url ''repos/a'') 1 idle_world = Some (r, handle (throttling_first 1), w')
          \<and> 2 \<le> calls w' \<and> 1000 \<le> now w' \<and> timeouts (trace w') = 1000 # ds"
      by (simp add: idle_world_def)
    then show ?thesis by blast
  qed
  have exactly: "map_option (\<lambda>(r, a, w). (r, calls w, timeouts (trace w), now w))
        (requestWithBackoff (answering ok_response) (handle (throttling_first 1))
           (Url ''repos/a'') 1 idle_world)
       = Some (Inr ok_response, 2, [1000], 1000)"
    by code_simp
  from passes raises retries exactly show ?thesis
    by (intro conjI) (erule conjunct1 conjunct2 | assumption)+
qed

subsection \<open>C4: the message of the throttling error\<close>

text \<open>
  C4. For a response with status 429 the error thrown carries the body text as its
  message, or the literal \<open>Too many requests\<close> when reading the body fails; once the
  attempts are used up this is the error the caller receives.
\<close>

theorem throttled_error_message:
  assumes "await_rateLimiter api w = Some (api1, w1)"
    and "transport_of pr api1 (calls w1) (buildRequest api1 (builds w1) req) = Inr response"
    and "status response = 429"
  shows "fst (try_request pr api1 req w1) =
           Inl (Error (case text_result response of Inr t \<Rightarrow> t | Inl _ \<Rightarrow> ''Too many requests''))
       \<and> (5 < attempt \<longrightarrow>
            requestWithBackoff pr api req attempt w =
              Some (Inl (Error (case text_result response of
                                  Inr t \<Rightarrow> t
                                | Inl _ \<Rightarrow> ''Too many requests'')),
                    api1, snd (try_request pr api1 req w1)))"
proof -
  define w2 where "w2 = snd (try_request pr api1 req w1)"
  define msg where "msg = (case text_result response of Inr t \<Rightarrow> t | Inl _ \<Rightarrow> ''Too many requests'')"
  have outcome: "fst (try_request pr api1 req w1) = Inl (Error msg)"
    using assms(2,3) by (simp add: try_request_fst attempt_outcome_eq msg_def)
  then have tried: "try_request pr api1 req w1 = (Inl (Error msg), w2)"
    by (simp add: w2_def prod_eq_iff)
  have "requestWithBackoff pr api req attempt w = Some (Inl (Error msg), api1, w2)" if "5 < attempt"
    using that by (simp add: requestWithBackoff.simps [of pr api req attempt w] assms(1) tried)
  then show ?thesis using outcome by (simp add: w2_def msg_def)
qed

text \<open>
  The theorem at a 429 response whose body reads \<open>slow down\<close>, and at one whose body
  cannot be read; and the whole call from attempt 1 when every response is that 429.
\<close>

theorem throttled_error_message_witness:
  "map_option (\<lambda>(r, a, w). r)
     (requestWithBackoff (answering ok_response) (handle (answering throttled_response))
        (Url ''repos/a'') 6 idle_world) = Some (Inl (Error ''slow down''))
   \<and> map_option (\<lambda>(r, a, w). r)
     (requestWithBackoff (answering ok_response) (handle (answering unreadable_throttled_response))
        (Url ''repos/a'') 6 idle_world) = Some (Inl (Error ''Too many requests''))
   \<and> map_option (\<lambda>(r, a, w). (r, calls w))
     (requestWithBackoff (answering ok_response) (handle (answering throttled_response))
        (Url ''repos/a'') 1 idle_world) = Some (Inl (Error ''slow down''), 6)"
proof -
  have a: "await_rateLimiter (handle t) idle_world = Some (handle t, idle_world)" for t
    by (simp add: await_no_lock handle_fresh)
  have s: "transport_of (answering ok_response) (handle (answering r)) (calls idle_world)
             (buildRequest (handle (answering r)) (builds idle_world) (Url ''repos/a'')) = Inr r" for r
    by (simp add: transport_of_def handle_def answering_def)
  have t1: "status throttled_response = 429" by (simp add: throttled_response_def)
  have t2: "status unreadable_throttled_response = 429" by (simp add: unreadable_throttled_response_def)
  have fails: "\<forall>i<5. isl (attempt_outcome (answering ok_response)
                          (handle (answering throttled_response)) (Url ''repos/a'') idle_world i)"
    by (simp add: attempt_outcome_eq transport_of_def handle_def answering_def
                  throttled_response_def)
  have sixth: "attempt_outcome (answering ok_response) (handle (answering throttled_response))
                 (Url ''repos/a'') idle_world 5 = Inl (Error ''slow down'')"
    by (simp add: attempt_outcome_eq transport_of_def handle_def answering_def
                  throttled_response_def)
  have bound: "1 + 5 \<le> (6::nat)" by simp
  have terminal: "1 + 5 = (6::nat) \<or> \<not> isl (attempt_outcome (answering ok_response)
      (handle (answering throttled_response)) (Url ''repos/a'') idle_world 5)" by simp
  from run_attempts [OF handle_fresh idle_world_timers fails bound terminal]
  obtain w' where r: "requestWithBackoff (answering ok_response) (handle (answering throttled_response))
        (Url ''repos/a'') 1 idle_world
      = Some (attempt_outcome (answering ok_response) (handle (answering throttled_response))
                (Url ''repos/a'') idle_world 5, handle (answering throttled_response), w')"
    and c: "calls w' = calls idle_world + 5 + 1"
    by blast
  have six: "calls w' = 6" using c by (simp add: idle_world_def)
  have whole_call: "map_option (\<lambda>(r, a, w). (r, calls w))
     (requestWithBackoff (answering ok_response) (handle (answering throttled_response))
        (Url ''repos/a'') 1 idle_world) = Some (Inl (Error ''slow down''), 6)"
    using r sixth six by simp
  have last_attempt: "map_option (\<lambda>(r, a, w). r)
       (requestWithBackoff (answering ok_response) (handle (answering throttled_response))
          (Url ''repos/a'') 6 idle_world) = Some (Inl (Error ''slow down''))
     \<and> map_option (\<lambda>(r, a, w). r)
       (requestWithBackoff (answering ok_response) (handle (answering unreadable_throttled_response))
          (Url ''repos/a'') 6 idle_world) = Some (Inl (Error ''Too many requests''))"
    using throttled_error_message [OF a s t1, of 6] throttled_error_message [OF a s t2, of 6]
    by (simp add: throttled_response_def unreadable_throttled_response_def)
  from last_attempt whole_call show ?thesis by blast
qed

subsection \<open>C5: the length of a cooldown\<close>



subsection \<open>C6: what is decorated and dispatched on a retry\<close>

text \<open>
  C6, as amended. Every retry is given the original request descriptor, and every attempt
  applies the decorator anew to that original descriptor (never to an already decorated
  one) and dispatches what this application returns: over \<open>k\<close> failed attempts and the
  attempt that ends the call the decorator is invoked \<open>k + 1\<close> times, each time on \<open>req\<close>.
\<close>

theorem every_attempt_decorates_the_original_request:
  assumes "rateLimiter api = None" and "timers w = []"
    and "k \<le> 5"
    and "\<forall>i<k. isl (attempt_outcome pr api req w i)"
    and "k = 5 \<or> \<not> isl (attempt_outcome pr api req w k)"
  shows "\<exists>w'. requestWithBackoff pr api req 1 w = Some (attempt_outcome pr api req w k, api, w')
           \<and> builds w' = builds w + (k + 1)
           \<and> decorated (trace w') =
                 decorated (trace w) @ map (\<lambda>i. (req, buildRequest api (builds w + i) req)) [0..<k + 1]
           \<and> dispatched (trace w') =
                 dispatched (trace w) @ map (\<lambda>i. buildRequest api (builds w + i) req) [0..<k + 1]"
proof -
  have bound: "1 + k \<le> 6" using assms(3) by simp
  have terminal: "1 + k = 6 \<or> \<not> isl (attempt_outcome pr api req w k)"
    using assms(5) by auto
  from run_attempts [OF assms(1,2,4) bound terminal]
  obtain w' where "requestWithBackoff pr api req 1 w = Some (attempt_outcome pr api req w k, api, w')"
    and "builds w' = builds w + k + 1"
    and "dispatched (trace w') =
           dispatched (trace w) @ map (\<lambda>i. buildRequest api (builds w + i) req) [0..<Suc k]"
    and "decorated (trace w') =
           decorated (trace w) @ map (\<lambda>i. (req, buildRequest api (builds w + i) req)) [0..<Suc k]"
    by blast
  then show ?thesis by (intro exI [of _ w']) simp
qed

text \<open>
  The theorem at one failure followed by a success.
\<close>

theorem every_attempt_decorates_the_original_request_witness:
  "\<exists>w'. requestWithBackoff (answering ok_response) (handle (failing_first 1)) (Url ''repos/a'') 1 idle_world
           = Some (Inr ok_response, handle (failing_first 1), w')
        \<and> builds w' = 2
        \<and> decorated (trace w') = [(Url ''repos/a'', stamp 0 (Url ''repos/a'')),
                                  (Url ''repos/a'', stamp 1 (Url ''repos/a''))]
        \<and> dispatched (trace w') = [stamp 0 (Url ''repos/a''), stamp 1 (Url ''repos/a'')]"
proof -
  have k: "(1::nat) \<le> 5" by simp
  have fails: "\<forall>i<1. isl (attempt_outcome (answering ok_response) (handle (failing_first 1))
                          (Url ''repos/a'') idle_world i)"
    by (simp add: attempt_outcome_eq transport_of_def handle_def failing_first_def idle_world_def)
  have ok: "attempt_outcome (answering ok_response) (handle (failing_first 1))
              (Url ''repos/a'') idle_world 1 = Inr ok_response"
    by code_simp
  then have terminal: "(1::nat) = 5 \<or> \<not> isl (attempt_outcome (answering ok_response)
       (handle (failing_first 1)) (Url ''repos/a'') idle_world 1)"
    by simp
  from every_attempt_decorates_the_original_request
         [OF handle_fresh idle_world_timers k fails terminal]
  obtain w' where r: "requestWithBackoff (answering ok_response) (handle (failing_first 1))
                     (Url ''repos/a'') 1 idle_world
                   = Some (attempt_outcome (answering ok_response) (handle (failing_first 1))
                             (Url ''repos/a'') idle_world 1, handle (failing_first 1), w')"
    and b: "builds w' = builds idle_world + (1 + 1)"
    and c: "decorated (trace w') = decorated (trace idle_world) @
              map (\<lambda>i. (Url ''repos/a'',
                         buildRequest (handle (failing_first 1)) (builds idle_world + i) (Url ''repos/a'')))
                [0..<1 + 1]"
    and d: "dispatched (trace w') = dispatched (trace idle_world) @
              map (\<lambda>i. buildRequest (handle (failing_first 1)) (builds idle_world + i) (Url ''repos/a''))
                [0..<1 + 1]"
    by blast
  have two: "[0..<1 + 1] = [0, 1::nat]" by code_simp
  from r ok have "requestWithBackoff (answering ok_response) (handle (failing_first 1))
                     (Url ''repos/a'') 1 idle_world = Some (Inr ok_response, handle (failing_first 1), w')"
    by simp
  moreover from b have "builds w' = 2" by (simp add: idle_world_def)
  moreover from c have "decorated (trace w') = [(Url ''repos/a'', stamp 0 (Url ''repos/a'')),
                                  (Url ''repos/a'', stamp 1 (Url ''repos/a''))]"
    by (simp only: two) (simp add: idle_world_def handle_def)
  moreover from d have "dispatched (trace w') = [stamp 0 (Url ''repos/a''), stamp 1 (Url ''repos/a'')]"
    by (simp only: two) (simp add: idle_world_def handle_def)
  ultimately show ?thesis by blast
qed

text \<open>
  C6 as stated says the output of the first decoration is what a retry dispatches. With a
  decorator that stamps a counter, the retry dispatches a request that differs from the
  first decoration: the decorator has run a second time.
\<close>

theorem retry_applies_the_decorator_anew:
  "map_option (\<lambda>(r, a, w). (r, builds w, decorated (trace w), dispatched (trace w)))
     (requestWithBackoff (answering ok_response) (handle (failing_first 1)) (Url ''repos/a'') 1 idle_world)
   = Some (Inr ok_response, 2,
           [(Url ''repos/a'', Url ''repos/a?ts=0''), (Url ''repos/a'', Url ''repos/a?ts=1'')],
           [Url ''repos/a?ts=0'', Url ''repos/a?ts=1''])"
  by code_simp

subsection \<open>C7: an absent id bypasses the cache\<close>

text \<open>
  C7. With an absent id (\<open>null\<close> or \<open>undefined\<close>) \<open>readFile\<close> invokes \<open>fetchContent\<close>,
  returns what it settles to, and calls neither \<open>getItem\<close> nor \<open>setItem\<close>: the entries of
  the store and the log of calls to it are as before.
\<close>

theorem readFile_absent_id_bypasses_cache:
  "readFile None fetchContent st isText =
     (fetchContent (fetches st), st\<lparr>fetches := fetches st + 1\<rparr>)
   \<and> items (snd (readFile None fetchContent st isText)) = items st
   \<and> store_calls (snd (readFile None fetchContent st isText)) = store_calls st
   \<and> fetches (snd (readFile None fetchContent st isText)) = fetches st + 1"
proof -
  have "readFile None fetchContent st isText =
          (fetchContent (fetches st), st\<lparr>fetches := fetches st + 1\<rparr>)"
    by (simp add: readFile_def if_truthy_def Let_def split: sum.split)
  then show ?thesis by simp
qed

subsection \<open>C8: fetch once, then serve from the store\<close>

text \<open>
  C8, as amended. For a non-empty id and a store with no entry under \<open>gh.<id>\<close>, a call of
  \<open>readFile\<close> in text mode whose fetch succeeds invokes \<open>fetchContent\<close> once, stores the
  content under \<open>gh.<id>\<close> and returns it; if that content is truthy, a second call with
  the same id returns it from the store without fetching or storing again.
\<close>

theorem readFile_fetches_once_then_serves_from_store:
  assumes "i \<noteq> []"
    and "items st (''gh.'' @ i) = None"
    and "fetchContent (fetches st) = Inr c"
  shows "\<exists>st1. readFile (Some i) fetchContent st True = (Inr c, st1)
           \<and> fetches st1 = fetches st + 1
           \<and> items st1 = (items st)(''gh.'' @ i \<mapsto> c)
           \<and> store_calls st1 = store_calls st @ [GetItem (''gh.'' @ i), SetItem (''gh.'' @ i) c]
           \<and> (truthy c \<longrightarrow>
                readFile (Some i) fetchContent st1 True =
                  (Inr c, st1\<lparr>store_calls := store_calls st1 @ [GetItem (''gh.'' @ i)]\<rparr>))"
proof -
  define st1 where "st1 = st\<lparr>items := (items st)(''gh.'' @ i \<mapsto> c),
      store_calls := store_calls st @ [GetItem (''gh.'' @ i), SetItem (''gh.'' @ i) c],
      fetches := fetches st + 1\<rparr>"
  have first: "readFile (Some i) fetchContent st True = (Inr c, st1)"
    using assms by (simp add: readFile_present_id cache_or_fetch_and_store_def if_truthy_def st1_def)
  have second: "readFile (Some i) fetchContent st1 True =
      (Inr c, st1\<lparr>store_calls := store_calls st1 @ [GetItem (''gh.'' @ i)]\<rparr>)" if "truthy c"
    using assms(1) that
    by (simp add: readFile_present_id cache_or_fetch_and_store_def if_truthy_def st1_def)
  show ?thesis
    using first second by (intro exI [of _ st1]) (simp add: st1_def)
qed

text \<open>
  The theorem at the id \<open>abc123\<close> and an empty store.
\<close>

theorem readFile_fetches_once_then_serves_from_store_witness:
  "\<exists>st1. readFile (Some ''abc123'') (fetching (Text ''hello'')) empty_store True = (Inr (Text ''hello''), st1)
      \<and> fetches st1 = 1
      \<and> items st1 ''gh.abc123'' = Some (Text ''hello'')
      \<and> store_calls st1 = [GetItem ''gh.abc123'', SetItem ''gh.abc123'' (Text ''hello'')]
      \<and> readFile (Some ''abc123'') (fetching (Text ''hello'')) st1 True =
           (Inr (Text ''hello''), st1\<lparr>store_calls := store_calls st1 @ [GetItem ''gh.abc123'']\<rparr>)"
proof -
  have i: "''abc123'' \<noteq> []" by simp
  have absent: "items empty_store (''gh.'' @ ''abc123'') = None" by (simp add: empty_store_def)
  have fetched: "fetching (Text ''hello'') (fetches empty_store) = Inr (Text ''hello'')"
    by (simp add: fetching_def)
  from readFile_fetches_once_then_serves_from_store
         [where i = "''abc123''" and st = empty_store and fetchContent = "fetching (Text ''hello'')"
            and c = "Text ''hello''", OF i absent fetched]
  show ?thesis
    by (auto simp: empty_store_def)
qed

text \<open>
  C8 as stated covers every non-null id and every content. With the empty string as id
  nothing is read from or written to the store; with the empty string as content the second
  call fetches again.
\<close>

theorem readFile_empty_id_or_empty_content_is_not_cached:
  "store_calls (snd (readFile (Some '''') (fetching (Text ''hello'')) empty_store True)) = []
   \<and> items (snd (readFile (Some '''') (fetching (Text ''hello'')) empty_store True)) ''gh.'' = None
   \<and> fetches (snd (readFile (Some ''abc123'') (fetching (Text ''''))
                      (snd (readFile (Some ''abc123'') (fetching (Text '''')) empty_store True)) True)) = 2"
  by (simp add: readFile_def getItem_def setItem_def if_truthy_def fetching_def empty_store_def Let_def)

subsection \<open>C9: the cache keys\<close>

text \<open>
  C9, as amended. For a non-empty id, \<open>readFile\<close> follows the cache rule of the spec on the
  key \<open>gh.<id>\<close> in text mode and on the different key \<open>gh.<id>.blob\<close> in binary mode; for
  every id, \<open>readFileMetadata\<close> follows the same rule on the key \<open>gh.<id>.meta\<close>.
\<close>

theorem cache_keys_are_exact:
  "(i \<noteq> [] \<longrightarrow>
      readFile (Some i) fetchContent st True =
        cache_or_fetch_and_store (''gh.'' @ i) fetchContent st
    \<and> readFile (Some i) fetchContent st False =
        cache_or_fetch_and_store (''gh.'' @ i @ ''.blob'') fetchContent st)
   \<and> ''gh.'' @ i @ ''.blob'' \<noteq> ''gh.'' @ i
   \<and> getFileMetadataKey i = ''gh.'' @ i @ ''.meta''
   \<and> readFileMetadata i fetchMetadata st =
        cache_or_fetch_and_store (''gh.'' @ i @ ''.meta'')
          (\<lambda>n. map_sum id Metadata (fetchMetadata n)) st"
proof -
  have text_mode: "readFile (Some i) fetchContent st True =
      cache_or_fetch_and_store (''gh.'' @ i) fetchContent st" if "i \<noteq> []"
    using that by (simp add: readFile_present_id)
  have blob_mode: "readFile (Some i) fetchContent st False =
      cache_or_fetch_and_store (''gh.'' @ i @ ''.blob'') fetchContent st" if "i \<noteq> []"
    using that by (simp add: readFile_present_id)
  have different: "''gh.'' @ i @ ''.blob'' \<noteq> ''gh.'' @ i"
    by simp
  have meta_key: "getFileMetadataKey i = ''gh.'' @ i @ ''.meta''"
    by (simp add: getFileMetadataKey_def)
  have meta_mode: "readFileMetadata i fetchMetadata st =
      cache_or_fetch_and_store (''gh.'' @ i @ ''.meta'')
        (\<lambda>n. map_sum id Metadata (fetchMetadata n)) st"
    by (rule readFileMetadata_rule)
  from text_mode blob_mode different meta_key meta_mode show ?thesis
    by blast
qed

text \<open>
  The theorem at the id \<open>abc123\<close>.
\<close>

theorem cache_keys_are_exact_witness:
  "readFile (Some ''abc123'') (fetching (Text ''hello'')) empty_store True =
     cache_or_fetch_and_store ''gh.abc123'' (fetching (Text ''hello'')) empty_store
   \<and> readFile (Some ''abc123'') (fetching (Blob [1, 2])) empty_store False =
     cache_or_fetch_and_store ''gh.abc123.blob'' (fetching (Blob [1, 2])) empty_store
   \<and> store_calls (snd (readFile (Some ''abc123'') (fetching (Blob [1, 2])) empty_store False)) =
       [GetItem ''gh.abc123.blob'', SetItem ''gh.abc123.blob'' (Blob [1, 2])]
   \<and> store_calls (snd (readFileMetadata ''abc123'' (\<lambda>n. Inr some_metadata) empty_store)) =
       [GetItem ''gh.abc123.meta'', SetItem ''gh.abc123.meta'' (Metadata some_metadata)]"
proof -
  have i: "''abc123'' \<noteq> []" by simp
  from cache_keys_are_exact [of "''abc123''" "fetching (Text ''hello'')" empty_store "\<lambda>n. Inr some_metadata"]
       cache_keys_are_exact [of "''abc123''" "fetching (Blob [1, 2])" empty_store "\<lambda>n. Inr some_metadata"]
  show ?thesis
    by (simp add: cache_or_fetch_and_store_def if_truthy_def empty_store_def fetching_def)
qed

text \<open>
  C9 as stated gives the key \<open>gh.<id>\<close> for every non-null id. For the empty string
  \<open>readFile\<close> uses no key at all, where the rule on the key \<open>gh.\<close> would read and write
  the store.
\<close>

theorem readFile_empty_id_uses_no_key:
  "store_calls (snd (readFile (Some '''') (fetching (Text ''hello'')) empty_store True)) = []
   \<and> store_calls (snd (cache_or_fetch_and_store ''gh.'' (fetching (Text ''hello'')) empty_store)) =
       [GetItem ''gh.'', SetItem ''gh.'' (Text ''hello'')]
   \<and> store_calls (snd (readFile (Some '''') (fetching (Blob [1, 2])) empty_store False)) = []"
  by (simp add: readFile_def cache_or_fetch_and_store_def getItem_def setItem_def if_truthy_def
                fetching_def empty_store_def Let_def)

subsection \<open>C10: a falsy cached value is a miss\<close>

text \<open>
  C10, as amended. When the store holds a falsy value under the key, \<open>readFile\<close> (for a
  non-empty id) and \<open>readFileMetadata\<close> (for every id) invoke the fetch function, and when
  it succeeds they write its result under the key and return it. This holds on every call:
  a fetched value that is falsy leaves the store in such a state again.
\<close>

theorem falsy_cached_value_is_a_miss:
  assumes "items st key = Some v" and "\<not> truthy v"
  shows "(i \<noteq> [] \<and> key = (if isText then ''gh.'' @ i else ''gh.'' @ i @ ''.blob'') \<longrightarrow>
            readFile (Some i) fetchContent st isText =
              (case fetchContent (fetches st) of
                 Inl err \<Rightarrow>
                   (Inl err, st\<lparr>store_calls := store_calls st @ [GetItem key],
                                fetches := fetches st + 1\<rparr>)
               | Inr c \<Rightarrow>
                   (Inr c, st\<lparr>items := (items st)(key \<mapsto> c),
                              store_calls := store_calls st @ [GetItem key, SetItem key c],
                              fetches := fetches st + 1\<rparr>)))
       \<and> (key = ''gh.'' @ i @ ''.meta'' \<longrightarrow>
            readFileMetadata i fetchMetadata st =
              (case fetchMetadata (fetches st) of
                 Inl err \<Rightarrow>
                   (Inl err, st\<lparr>store_calls := store_calls st @ [GetItem key],
                                fetches := fetches st + 1\<rparr>)
               | Inr m \<Rightarrow>
                   (Inr (Metadata m),
                    st\<lparr>items := (items st)(key \<mapsto> Metadata m),
                       store_calls := store_calls st @ [GetItem key, SetItem key (Metadata m)],
                       fetches := fetches st + 1\<rparr>)))"
  using assms
  by (auto simp: readFile_present_id readFileMetadata_rule cache_or_fetch_and_store_def if_truthy_def
           split: sum.split)

text \<open>
  The theorem at stores that hold the empty string under the text key and under the
  metadata key; and two calls in a row whose fetch returns the empty string again.
\<close>

theorem falsy_cached_value_is_a_miss_witness:
  "readFile (Some ''abc123'') (fetching (Text '''')) (store_holding ''gh.abc123'' (Text '''')) True =
     (Inr (Text ''''),
      (store_holding ''gh.abc123'' (Text ''''))
        \<lparr>items := (items (store_holding ''gh.abc123'' (Text '''')))(''gh.abc123'' \<mapsto> Text ''''),
         store_calls := [GetItem ''gh.abc123'', SetItem ''gh.abc123'' (Text '''')],
         fetches := 1\<rparr>)
   \<and> readFileMetadata ''abc123'' (\<lambda>n. Inr some_metadata) (store_holding ''gh.abc123.meta'' (Text '''')) =
     (Inr (Metadata some_metadata),
      (store_holding ''gh.abc123.meta'' (Text ''''))
        \<lparr>items := (items (store_holding ''gh.abc123.meta'' (Text '''')))
                    (''gh.abc123.meta'' \<mapsto> Metadata some_metadata),
         store_calls := [GetItem ''gh.abc123.meta'', SetItem ''gh.abc123.meta'' (Metadata some_metadata)],
         fetches := 1\<rparr>)
   \<and> map_prod id (\<lambda>st. (store_calls st, fetches st))
       (readFile (Some ''abc123'') (fetching (Text ''''))
          (snd (readFile (Some ''abc123'') (fetching (Text ''''))
                  (store_holding ''gh.abc123'' (Text '''')) True)) True) =
     (Inr (Text ''''),
      [GetItem ''gh.abc123'', SetItem ''gh.abc123'' (Text ''''),
       GetItem ''gh.abc123'', SetItem ''gh.abc123'' (Text '''')], 2)"
proof -
  have h1: "items (store_holding ''gh.abc123'' (Text '''')) ''gh.abc123'' = Some (Text '''')"
    by (simp add: store_holding_def)
  have h2: "items (store_holding ''gh.abc123.meta'' (Text '''')) ''gh.abc123.meta'' = Some (Text '''')"
    by (simp add: store_holding_def)
  have falsy: "\<not> truthy (Text '''')" by simp
  have again: "map_prod id (\<lambda>st. (store_calls st, fetches st))
       (readFile (Some ''abc123'') (fetching (Text ''''))
          (snd (readFile (Some ''abc123'') (fetching (Text ''''))
                  (store_holding ''gh.abc123'' (Text '''')) True)) True) =
     (Inr (Text ''''),
      [GetItem ''gh.abc123'', SetItem ''gh.abc123'' (Text ''''),
       GetItem ''gh.abc123'', SetItem ''gh.abc123'' (Text '''')], 2)"
    by (simp add: readFile_def getItem_def setItem_def if_truthy_def fetching_def
                  store_holding_def Let_def)
  have text_miss: "readFile (Some ''abc123'') (fetching (Text ''''))
        (store_holding ''gh.abc123'' (Text '''')) True =
     (Inr (Text ''''),
      (store_holding ''gh.abc123'' (Text ''''))
        \<lparr>items := (items (store_holding ''gh.abc123'' (Text '''')))(''gh.abc123'' \<mapsto> Text ''''),
         store_calls := [GetItem ''gh.abc123'', SetItem ''gh.abc123'' (Text '''')],
         fetches := 1\<rparr>)"
    using falsy_cached_value_is_a_miss [OF h1 falsy, of "''abc123''" True "fetching (Text '''')"]
    by (simp add: fetching_def store_holding_def)
  have meta_miss: "readFileMetadata ''abc123'' (\<lambda>n. Inr some_metadata)
        (store_holding ''gh.abc123.meta'' (Text '''')) =
     (Inr (Metadata some_metadata),
      (store_holding ''gh.abc123.meta'' (Text ''''))
        \<lparr>items := (items (store_holding ''gh.abc123.meta'' (Text '''')))
                    (''gh.abc123.meta'' \<mapsto> Metadata some_metadata),
         store_calls := [GetItem ''gh.abc123.meta'', SetItem ''gh.abc123.meta'' (Metadata some_metadata)],
         fetches := 1\<rparr>)"
    using falsy_cached_value_is_a_miss [OF h2 falsy, of "''abc123''" True _ "\<lambda>n. Inr some_metadata"]
    by (simp add: store_holding_def)
  from text_miss meta_miss again show ?thesis by blast
qed

text \<open>
  C10 as stated covers every non-null id. With the empty string as id and a falsy value
  under \<open>gh.\<close>, \<open>readFile\<close> fetches but does not write the store.
\<close>

theorem readFile_empty_id_never_rewrites_store:
  "map_prod id (\<lambda>st. (store_calls st, fetches st, items st ''gh.''))
     (readFile (Some '''') (fetching (Text ''fresh'')) (store_holding ''gh.'' (Text '''')) True)
   = (Inr (Text ''fresh''), [], 1, Some (Text ''''))"
  by (simp add: readFile_def getItem_def setItem_def if_truthy_def fetching_def store_holding_def Let_def)

end
